theory Spec2Isabelle
  imports Main
begin

section \<open>Values, errors and the session memory\<close>

text \<open>
  The program threads untyped Python dictionaries between its steps. The values that
  occur in them are strings, booleans, \<open>None\<close> and the one dictionary \<open>{"goal": ...}\<close>.
\<close>

datatype val = VNone | VBool bool | VStr string | VDict "(string \<times> val) list"

datatype error =
    KeyError string
  | AttributeError
  | TypeError
  | IndexError
  | EOFError
  | GraphRecursionError
  | ApiError string

type_synonym state = "string \<rightharpoonup> val"

text \<open>Python truthiness, as used by \<open>if final_json:\<close> and by \<open>confirm_router\<close>.\<close>

fun truthy :: "val \<Rightarrow> bool" where
  "truthy VNone = False"
| "truthy (VBool b) = b"
| "truthy (VStr s) = (s \<noteq> [])"
| "truthy (VDict kvs) = (kvs \<noteq> [])"

text \<open>
  Text is a list of 8-bit characters (the symbols in the program's own messages are
  their UTF-8 bytes). \<open>lower\<close> is \<open>str.lower\<close> on the letters A to Z and leaves
  every other character as it is; \<open>startswith\<close> is \<open>str.startswith\<close>.
\<close>

definition lower_char :: "char \<Rightarrow> char" where
  "lower_char c =
     (case map_of (zip ''ABCDEFGHIJKLMNOPQRSTUVWXYZ'' ''abcdefghijklmnopqrstuvwxyz'') c of
        Some d \<Rightarrow> d
      | None \<Rightarrow> c)"

definition lower :: "string \<Rightarrow> string" where
  "lower s = map lower_char s"

definition startswith :: "string \<Rightarrow> string \<Rightarrow> bool" where
  "startswith s p = (take (length p) s = p)"

text \<open>\<open>v.lower()\<close> on a value that need not be a string raises AttributeError.\<close>

definition val_lower :: "val \<Rightarrow> error + string" where
  "val_lower v = (case v of VStr s \<Rightarrow> Inr (lower s) | _ \<Rightarrow> Inl AttributeError)"

text \<open>
  \<open>str(v)\<close> as the f-strings and \<open>print\<close> apply it. The rendering of a quoted string
  inside a dictionary (\<open>repr\<close> of a \<open>str\<close>) is a parameter \<open>rs\<close>.
\<close>

fun join :: "string \<Rightarrow> string list \<Rightarrow> string" where
  "join sep [] = []"
| "join sep [x] = x"
| "join sep (x # y # ys) = x @ sep @ join sep (y # ys)"

fun py_repr :: "(string \<Rightarrow> string) \<Rightarrow> val \<Rightarrow> string" where
  "py_repr rs VNone = ''None''"
| "py_repr rs (VBool b) = (if b then ''True'' else ''False'')"
| "py_repr rs (VStr s) = rs s"
| "py_repr rs (VDict kvs) =
     ''{'' @ join '', '' (map (\<lambda>kv. rs (fst kv) @ '': '' @ py_repr rs (snd kv)) kvs) @ ''}''"

definition py_str :: "(string \<Rightarrow> string) \<Rightarrow> val \<Rightarrow> string" where
  "py_str rs v = (case v of VStr s \<Rightarrow> s | _ \<Rightarrow> py_repr rs v)"

subsection \<open>AgentMemory\<close>

definition remember :: "string \<Rightarrow> val \<Rightarrow> state \<Rightarrow> state" where
  "remember key v m = m(key \<mapsto> v)"

definition recall :: "string \<Rightarrow> val \<Rightarrow> state \<Rightarrow> val" where
  "recall key dflt m = (case m key of Some v \<Rightarrow> v | None \<Rightarrow> dflt)"

section \<open>The world: memory, console and the text generator\<close>

datatype part = Part (part_text: "string option")
datatype content = Content (parts: "part list option")
datatype candidate = Candidate (content: "content option")
datatype response = Response (candidates: "candidate list option") (as_str: string)

datatype helper = GenerateDraft | UpdateWorkflow | FinalizeJson

datatype node = Parse | Draft | Present | Confirm | Update | Finalize

datatype target = Node node | END

datatype merge_policy = Replace | Merge

text \<open>
  What the program does not define itself: the generator client (asked with the number
  of earlier calls and the prompt), \<open>repr\<close> of a string, how the graph library folds a
  step's returned dictionary into the running state, and how many steps it allows per
  invocation.
\<close>

record env =
  generate_content :: "nat \<Rightarrow> string \<Rightarrow> error + response"
  repr_str :: "string \<Rightarrow> string"
  policy :: merge_policy
  recursion_limit :: nat

text \<open>
  \<open>calls\<close>, \<open>helpers\<close> and \<open>visited\<close> are logs: every generator call with its outcome,
  every prompt helper entered, every graph step entered.
\<close>

record world =
  memory :: state
  stdin :: "string list"
  stdout :: "string list"
  calls :: "(string \<times> (error + val)) list"
  helpers :: "helper list"
  visited :: "node list"

definition init_world :: "string list \<Rightarrow> world" where
  "init_world lines =
     \<lparr>memory = Map.empty, stdin = lines, stdout = [], calls = [], helpers = [], visited = []\<rparr>"

definition print :: "string \<Rightarrow> world \<Rightarrow> world" where
  "print s w = w\<lparr>stdout := stdout w @ [s @ [CHR 0x0A]]\<rparr>"

definition input :: "string \<Rightarrow> world \<Rightarrow> (error + string) \<times> world" where
  "input prompt w =
     (let w' = w\<lparr>stdout := stdout w @ [prompt]\<rparr> in
      case stdin w of
        [] \<Rightarrow> (Inl EOFError, w')
      | l # ls \<Rightarrow> (Inr l, w'\<lparr>stdin := ls\<rparr>))"

subsection \<open>Helper functions\<close>

definition first_text :: "candidate \<Rightarrow> error + val" where
  "first_text c =
     (case content c of
        None \<Rightarrow> Inl AttributeError
      | Some ct \<Rightarrow>
          (case parts ct of
             None \<Rightarrow> Inl TypeError
           | Some [] \<Rightarrow> Inl IndexError
           | Some (p # ps) \<Rightarrow> Inr (case part_text p of None \<Rightarrow> VNone | Some s \<Rightarrow> VStr s)))"

definition completion_of :: "error + response \<Rightarrow> error + val" where
  "completion_of r =
     (case r of
        Inl e \<Rightarrow> Inl e
      | Inr response \<Rightarrow>
          (case candidates response of
             None \<Rightarrow> Inr (VStr (as_str response))
           | Some [] \<Rightarrow> Inr (VStr (as_str response))
           | Some (c # cs) \<Rightarrow> first_text c))"

definition gemini_call :: "env \<Rightarrow> string \<Rightarrow> world \<Rightarrow> (error + val) \<times> world" where
  "gemini_call env prompt w =
     (let r = completion_of (generate_content env (length (calls w)) prompt)
      in (r, w\<lparr>calls := calls w @ [(prompt, r)]\<rparr>))"

definition nl :: string where
  "nl = [CHR 0x0A]"

definition draft_prompt :: "env \<Rightarrow> val \<Rightarrow> string" where
  "draft_prompt env parsed =
     nl @ ''    User requirements parsed: '' @ py_str (repr_str env) parsed @ nl @ nl
     @ ''    Create a draft workflow and list of tools needed to build the agent.'' @ nl
     @ ''    Do not return JSON yet, just human-readable details.'' @ nl
     @ ''    ''"

definition update_prompt :: "env \<Rightarrow> val \<Rightarrow> val \<Rightarrow> string" where
  "update_prompt env draft change_request =
     nl @ ''    Current draft workflow:'' @ nl
     @ ''    '' @ py_str (repr_str env) draft @ nl @ nl
     @ ''    User requested changes:'' @ nl
     @ ''    '' @ py_str (repr_str env) change_request @ nl @ nl
     @ ''    Update only the necessary parts of the workflow, don'' @ [CHR 0x27]
     @ ''t rebuild everything.'' @ nl
     @ ''    ''"

definition finalize_prompt :: "env \<Rightarrow> val \<Rightarrow> string" where
  "finalize_prompt env draft =
     nl @ ''    Convert the following agent workflow and tools into a clean JSON format:''
     @ nl @ nl
     @ ''    '' @ py_str (repr_str env) draft @ nl
     @ ''    ''"

definition generate_draft_with_gemini :: "env \<Rightarrow> val \<Rightarrow> world \<Rightarrow> (error + val) \<times> world" where
  "generate_draft_with_gemini env parsed w =
     gemini_call env (draft_prompt env parsed) (w\<lparr>helpers := helpers w @ [GenerateDraft]\<rparr>)"

definition update_workflow_with_gemini ::
  "env \<Rightarrow> val \<Rightarrow> val \<Rightarrow> world \<Rightarrow> (error + val) \<times> world" where
  "update_workflow_with_gemini env draft change_request w =
     gemini_call env (update_prompt env draft change_request)
       (w\<lparr>helpers := helpers w @ [UpdateWorkflow]\<rparr>)"

definition finalize_json_with_gemini :: "env \<Rightarrow> val \<Rightarrow> world \<Rightarrow> (error + val) \<times> world" where
  "finalize_json_with_gemini env draft w =
     gemini_call env (finalize_prompt env draft) (w\<lparr>helpers := helpers w @ [FinalizeJson]\<rparr>)"

subsection \<open>Node functions\<close>

text \<open>Each step takes the running state and returns the dictionary of keys it updates.\<close>

definition parse_requirements :: "state \<Rightarrow> world \<Rightarrow> (error + state) \<times> world" where
  "parse_requirements st w =
     (case st ''requirements'' of
        None \<Rightarrow> (Inl (KeyError ''requirements''), w)
      | Some user_input \<Rightarrow>
          (let parsed = VDict [(''goal'', user_input)] in
           (Inr [''parsed'' \<mapsto> parsed],
            w\<lparr>memory :=
                 remember ''parsed'' parsed (remember ''requirements'' user_input (memory w))\<rparr>)))"

definition draft_workflow :: "env \<Rightarrow> state \<Rightarrow> world \<Rightarrow> (error + state) \<times> world" where
  "draft_workflow env st w =
     (let parsed = recall ''parsed'' VNone (memory w) in
      case generate_draft_with_gemini env parsed w of
        (Inl e, w') \<Rightarrow> (Inl e, w')
      | (Inr workflow, w') \<Rightarrow>
          (Inr [''draft'' \<mapsto> workflow],
           w'\<lparr>memory := remember ''draft'' workflow (memory w')\<rparr>))"

definition proposed_header :: string where
  "proposed_header =
     nl @ [CHR 0xF0, CHR 0x9F, CHR 0x93, CHR 0x8B] @ '' Proposed Workflow & Tools:''"

definition confirm_prompt :: string where
  "confirm_prompt = nl @ ''Do you confirm this? (yes / specify changes): ''"

definition present_workflow :: "env \<Rightarrow> state \<Rightarrow> world \<Rightarrow> (error + state) \<times> world" where
  "present_workflow env st w =
     (let draft = recall ''draft'' VNone (memory w);
          w1 = print proposed_header w;
          w2 = print (py_str (repr_str env) draft) w1
      in case input confirm_prompt w2 of
           (Inl e, w') \<Rightarrow> (Inl e, w')
         | (Inr user_feedback, w') \<Rightarrow> (Inr [''user_feedback'' \<mapsto> VStr user_feedback], w'))"

definition confirm_node :: "state \<Rightarrow> world \<Rightarrow> (error + state) \<times> world" where
  "confirm_node st w =
     (let feedback = (case st ''user_feedback'' of Some v \<Rightarrow> v | None \<Rightarrow> VStr '''') in
      case val_lower feedback of
        Inl e \<Rightarrow> (Inl e, w)
      | Inr low \<Rightarrow>
          if startswith low ''yes'' then
            (Inr [''confirmed'' \<mapsto> VBool True],
             w\<lparr>memory := remember ''confirmed'' (VBool True) (memory w)\<rparr>)
          else
            (Inr [''confirmed'' \<mapsto> VBool False, ''user_feedback'' \<mapsto> feedback],
             w\<lparr>memory :=
                  remember ''user_feedback'' feedback
                    (remember ''confirmed'' (VBool False) (memory w))\<rparr>))"

definition update_workflow :: "env \<Rightarrow> state \<Rightarrow> world \<Rightarrow> (error + state) \<times> world" where
  "update_workflow env st w =
     (let draft = recall ''draft'' VNone (memory w);
          change_request = recall ''user_feedback'' VNone (memory w)
      in case update_workflow_with_gemini env draft change_request w of
           (Inl e, w') \<Rightarrow> (Inl e, w')
         | (Inr updated, w') \<Rightarrow>
             (Inr [''draft'' \<mapsto> updated],
              w'\<lparr>memory := remember ''draft'' updated (memory w')\<rparr>))"

definition finalize_json :: "env \<Rightarrow> state \<Rightarrow> world \<Rightarrow> (error + state) \<times> world" where
  "finalize_json env st w =
     (let draft = recall ''draft'' VNone (memory w) in
      case finalize_json_with_gemini env draft w of
        (Inl e, w') \<Rightarrow> (Inl e, w')
      | (Inr final, w') \<Rightarrow>
          (Inr [''final_json'' \<mapsto> final],
           w'\<lparr>memory := remember ''final_json'' final (memory w')\<rparr>))"

subsection \<open>The graph\<close>

definition confirm_router :: "state \<Rightarrow> node" where
  "confirm_router st =
     (if truthy (case st ''confirmed'' of Some v \<Rightarrow> v | None \<Rightarrow> VNone) then Finalize
      else Update)"

fun run_node :: "env \<Rightarrow> node \<Rightarrow> state \<Rightarrow> world \<Rightarrow> (error + state) \<times> world" where
  "run_node env Parse st w = parse_requirements st w"
| "run_node env Draft st w = draft_workflow env st w"
| "run_node env Present st w = present_workflow env st w"
| "run_node env Confirm st w = confirm_node st w"
| "run_node env Update st w = update_workflow env st w"
| "run_node env Finalize st w = finalize_json env st w"

fun next_node :: "node \<Rightarrow> state \<Rightarrow> target" where
  "next_node Parse st = Node Draft"
| "next_node Draft st = Node Present"
| "next_node Update st = Node Present"
| "next_node Confirm st = Node (confirm_router st)"
| "next_node Present st = Node Confirm"
| "next_node Finalize st = END"

definition apply_update :: "merge_policy \<Rightarrow> state \<Rightarrow> state \<Rightarrow> state" where
  "apply_update pol st u = (case pol of Replace \<Rightarrow> u | Merge \<Rightarrow> st ++ u)"

text \<open>
  One invocation of the compiled graph from a given step, with the number of steps the
  library still allows. The library tests the step count before it looks whether any
  step is left to run: once the last allowed step has run it raises its recursion
  error, also when that step was the final one.
\<close>

fun run_graph :: "env \<Rightarrow> nat \<Rightarrow> node \<Rightarrow> state \<Rightarrow> world \<Rightarrow> (error + state) \<times> world" where
  "run_graph env 0 n st w = (Inl GraphRecursionError, w)"
| "run_graph env (Suc k) n st w =
     (case run_node env n st (w\<lparr>visited := visited w @ [n]\<rparr>) of
        (Inl e, w') \<Rightarrow> (Inl e, w')
      | (Inr u, w') \<Rightarrow>
          (let st' = apply_update (policy env) st u in
           case next_node n st' of
             END \<Rightarrow> (if k = 0 then (Inl GraphRecursionError, w') else (Inr st', w'))
           | Node m \<Rightarrow> run_graph env k m st' w'))"

definition invoke :: "env \<Rightarrow> state \<Rightarrow> world \<Rightarrow> (error + state) \<times> world" where
  "invoke env st w = run_graph env (recursion_limit env) Parse st w"

subsection \<open>Every completed invocation reads the console\<close>

lemma gemini_call_stdin: "gemini_call env p w = (r, w') \<Longrightarrow> stdin w' = stdin w"
  by (auto simp: gemini_call_def Let_def)

lemma run_node_stdin:
  "run_node env n st w = (r, w') \<Longrightarrow> length (stdin w') \<le> length (stdin w)"
  by (cases n)
     (auto simp: parse_requirements_def draft_workflow_def present_workflow_def confirm_node_def
        update_workflow_def finalize_json_def generate_draft_with_gemini_def
        update_workflow_with_gemini_def finalize_json_with_gemini_def input_def print_def
        Let_def
        dest!: gemini_call_stdin split: option.splits sum.splits prod.splits list.splits if_splits)

lemma present_consumes:
  "present_workflow env st w = (Inr u, w') \<Longrightarrow> length (stdin w') < length (stdin w)"
  by (auto simp: present_workflow_def input_def print_def Let_def split: list.splits)

definition needs_input :: "node \<Rightarrow> nat" where
  "needs_input n = (if n = Confirm \<or> n = Finalize then 0 else 1)"

lemma run_graph_consumes:
  "run_graph env k n st w = (Inr st', w') \<Longrightarrow>
   length (stdin w') + needs_input n \<le> length (stdin w)"
proof (induction k arbitrary: n st w)
  case 0
  then show ?case by simp
next
  case (Suc k)
  obtain r w1 where rn: "run_node env n st (w\<lparr>visited := visited w @ [n]\<rparr>) = (r, w1)"
    by (cases "run_node env n st (w\<lparr>visited := visited w @ [n]\<rparr>)")
  from Suc.prems rn obtain u where r: "r = Inr u"
    by (cases r) auto
  have le: "length (stdin w1) \<le> length (stdin w)"
    using run_node_stdin [OF rn] by simp
  let ?st = "apply_update (policy env) st u"
  show ?case
  proof (cases "next_node n ?st")
    case END
    then have "n = Finalize" by (cases n) auto
    with Suc.prems rn r END le show ?thesis
      by (simp add: needs_input_def split: if_splits)
  next
    case (Node m)
    with Suc.prems rn r have rec: "run_graph env k m ?st w1 = (Inr st', w')"
      by (simp add: Let_def)
    note ih = Suc.IH [OF rec]
    show ?thesis
    proof (cases "n = Present")
      case True
      with rn r have "length (stdin w1) < length (stdin w)"
        using present_consumes [of env st "w\<lparr>visited := visited w @ [n]\<rparr>" u w1] by simp
      with ih show ?thesis by (simp add: needs_input_def)
    next
      case False
      show ?thesis
      proof (cases "n = Confirm")
        case True
        with ih le show ?thesis by (simp add: needs_input_def)
      next
        case False
        with \<open>n \<noteq> Present\<close> Node have "needs_input m = 1"
          by (cases n) (auto simp: needs_input_def)
        with ih le show ?thesis by (simp add: needs_input_def)
      qed
    qed
  qed
qed

lemma invoke_consumes:
  "invoke env st w = (Inr st', w') \<Longrightarrow> length (stdin w') < length (stdin w)"
  using run_graph_consumes [of env "recursion_limit env" Parse st w st' w']
  by (simp add: invoke_def needs_input_def)

section \<open>The chat driver\<close>

definition welcome_msg :: string where
  "welcome_msg = [CHR 0xF0, CHR 0x9F, CHR 0xA4, CHR 0x96]
     @ '' Welcome to the Agent Builder Chat! Type '' @ [CHR 0x27] @ ''exit'' @ [CHR 0x27]
     @ '' anytime to quit.'' @ nl"

definition requirements_prompt :: string where
  "requirements_prompt = [CHR 0xF0, CHR 0x9F, CHR 0x93, CHR 0x9D]
     @ '' Enter your agent requirements: ''"

definition final_header :: string where
  "final_header = nl @ [CHR 0xE2, CHR 0x9C, CHR 0x85] @ '' Final Workflow JSON:''"

definition goodbye :: string where
  "goodbye = nl @ ''Exiting Agent Builder. Goodbye!''"

text \<open>
  The \<open>while True\<close> loop of the driver. Each invocation that returns has read one line
  of the console, which is finite, so the loop is a total function.
\<close>

function run_loop :: "env \<Rightarrow> state \<Rightarrow> world \<Rightarrow> (error + unit) \<times> world" where
  "run_loop env st w =
     (case invoke env st w of
        (Inl e, w') \<Rightarrow> (Inl e, w')
      | (Inr st', w') \<Rightarrow>
          (let final_json = recall ''final_json'' VNone (memory w') in
           if truthy final_json then
             (Inr (), print (py_str (repr_str env) final_json) (print final_header w'))
           else
             (case val_lower (case st' ''user_feedback'' of Some v \<Rightarrow> v | None \<Rightarrow> VStr '''') of
                Inl e \<Rightarrow> (Inl e, w')
              | Inr low \<Rightarrow>
                  if low = ''exit'' then (Inr (), print goodbye w')
                  else run_loop env st' w')))"
  by pat_completeness auto
termination
  by (relation "measure (\<lambda>(env, st, w). length (stdin w))") (auto dest: invoke_consumes [OF sym])

declare run_loop.simps [simp del]

definition run_chat_agent :: "env \<Rightarrow> world \<Rightarrow> (error + unit) \<times> world" where
  "run_chat_agent env w =
     (case input requirements_prompt (print welcome_msg w) of
        (Inl e, w') \<Rightarrow> (Inl e, w')
      | (Inr user_req, w') \<Rightarrow>
          if lower user_req = ''exit'' then (Inr (), w')
          else run_loop env [''requirements'' \<mapsto> VStr user_req] w')"

section \<open>Generators that always answer the same\<close>

text \<open>
  Stand-ins for the service, for running the program on concrete console input:
  \<open>constant_env\<close> answers every call with the same outcome \<open>x\<close>, \<open>canned_env\<close> with
  one candidate whose first part holds the text \<open>s\<close>.
\<close>

definition canned_response :: "string \<Rightarrow> response" where
  "canned_response s = Response (Some [Candidate (Some (Content (Some [Part (Some s)])))]) ''response''"

definition constant_env :: "merge_policy \<Rightarrow> error + response \<Rightarrow> env" where
  "constant_env pol x =
     \<lparr>generate_content = (\<lambda>n prompt. x),
      repr_str = (\<lambda>s. [CHR 0x27] @ s @ [CHR 0x27]),
      policy = pol,
      recursion_limit = 25\<rparr>"

definition canned_env :: "merge_policy \<Rightarrow> string \<Rightarrow> env" where
  "canned_env pol s = constant_env pol (Inr (canned_response s))"

section \<open>Predicates on runs\<close>

text \<open>The test of the confirm step on a feedback string.\<close>

definition confirming :: "string \<Rightarrow> bool" where
  "confirming f = startswith (lower f) ''yes''"

text \<open>In a sequence of visited steps, every confirm that has a successor is followed by update.\<close>

fun confirm_routes_to_update :: "node list \<Rightarrow> bool" where
  "confirm_routes_to_update (n # m # ns) =
     ((n = Confirm \<longrightarrow> m = Update) \<and> confirm_routes_to_update (m # ns))"
| "confirm_routes_to_update ns = True"

text \<open>
  The errors of the logged generator calls, in order; and what it means for a result
  to be the abort caused by a failed call: no call in the log failed, or exactly one
  did, it is the last one, and its error is the result.
\<close>

fun failed_calls :: "(string \<times> (error + val)) list \<Rightarrow> error list" where
  "failed_calls [] = []"
| "failed_calls ((p, Inl e) # cs) = e # failed_calls cs"
| "failed_calls ((p, Inr v) # cs) = failed_calls cs"

definition aborted_by :: "error + 'a \<Rightarrow> world \<Rightarrow> bool" where
  "aborted_by r w =
     (case r of
        Inr x \<Rightarrow> failed_calls (calls w) = []
      | Inl e \<Rightarrow> failed_calls (calls w) = []
                 \<or> (failed_calls (calls w) = [e] \<and> calls w \<noteq> [] \<and> snd (last (calls w)) = Inl e))"

text \<open>The driver's test after an invocation: the state's feedback is not \<open>exit\<close>.\<close>

definition not_exit_feedback :: "state \<Rightarrow> bool" where
  "not_exit_feedback st =
     (val_lower (case st ''user_feedback'' of Some v \<Rightarrow> v | None \<Rightarrow> VStr '''') \<noteq> Inr ''exit'')"

text \<open>
  The run in which the user gives requirements, types \<open>exit\<close> at the first feedback
  prompt and \<open>yes\<close> at the second, the generator answering \<open>{}\<close> every time.
\<close>

definition exit_run :: "merge_policy \<Rightarrow> (error + unit) \<times> world" where
  "exit_run pol =
     run_chat_agent (canned_env pol ''{}'') (init_world [''build a web scraper'', ''exit'', ''yes''])"

text \<open>
  The run in which the user gives the requirements \<open>build a web scraper\<close> and types
  \<open>yes\<close> at the first feedback prompt.
\<close>

definition scenario_run :: "env \<Rightarrow> (error + unit) \<times> world" where
  "scenario_run env = run_chat_agent env (init_world [''build a web scraper'', ''yes''])"

section \<open>Session memory\<close>

text \<open>
  Claim C8. \<open>remember\<close> binds the key to the value whether or not the key was bound
  before, and leaves every other key alone; \<open>recall\<close> returns the stored value when the
  key is bound and the default when it is not, so recalling a key just remembered gives
  the remembered value.
\<close>

theorem remember_recall:
  "remember k v m k = Some v
   \<and> (\<forall>k'. k' \<noteq> k \<longrightarrow> remember k v m k' = m k')
   \<and> dom (remember k v m) = insert k (dom m)
   \<and> (\<forall>x. m k = Some x \<longrightarrow> recall k d m = x)
   \<and> (m k = None \<longrightarrow> recall k d m = d)
   \<and> recall k d (remember k v m) = v"
  by (simp add: remember_def recall_def)

theorem remember_recall_witness:
  "remember ''draft'' (VStr ''b'') [''draft'' \<mapsto> VStr ''a''] ''parsed'' = None
   \<and> recall ''draft'' VNone [''draft'' \<mapsto> VStr ''a''] = VStr ''a''
   \<and> recall ''draft'' (VStr ''d'') Map.empty = VStr ''d''
   \<and> recall ''draft'' VNone (remember ''draft'' (VStr ''b'') [''draft'' \<mapsto> VStr ''a'']) = VStr ''b''"
  using remember_recall [of "''draft''" "VStr ''b''" "[''draft'' \<mapsto> VStr ''a'']" VNone]
    remember_recall [of "''draft''" "VStr ''b''" Map.empty "VStr ''d''"]
  by simp

section \<open>The parse step\<close>

text \<open>
  Claim C6. On a state whose \<open>requirements\<close> key holds a string (empty or not), the parse
  step returns the update \<open>{parsed: {goal: requirements}}\<close> and stores the raw text under
  \<open>requirements\<close> and the \<open>{goal: requirements}\<close> dictionary under \<open>parsed\<close> in the
  session memory; nothing else of the world changes.
\<close>

theorem parse_requirements_stores:
  assumes "st ''requirements'' = Some (VStr r)"
  shows "parse_requirements st w =
           (Inr [''parsed'' \<mapsto> VDict [(''goal'', VStr r)]],
            w\<lparr>memory := (memory w)(''requirements'' \<mapsto> VStr r,
                                    ''parsed'' \<mapsto> VDict [(''goal'', VStr r)])\<rparr>)"
  using assms by (simp add: parse_requirements_def remember_def Let_def)

theorem parse_requirements_stores_witness:
  "parse_requirements [''requirements'' \<mapsto> VStr ''build a web scraper''] (init_world []) =
     (Inr [''parsed'' \<mapsto> VDict [(''goal'', VStr ''build a web scraper'')]],
      (init_world [])\<lparr>memory :=
         [''requirements'' \<mapsto> VStr ''build a web scraper'',
          ''parsed'' \<mapsto> VDict [(''goal'', VStr ''build a web scraper'')]]\<rparr>)"
  using parse_requirements_stores
    [of "[''requirements'' \<mapsto> VStr ''build a web scraper'']" "''build a web scraper''"
        "init_world []"]
  by (simp add: init_world_def)

section \<open>The confirm step\<close>

lemma confirm_node_str:
  "st ''user_feedback'' = Some (VStr f) \<Longrightarrow>
   confirm_node st w =
     (if startswith (lower f) ''yes''
      then (Inr [''confirmed'' \<mapsto> VBool True],
            w\<lparr>memory := (memory w)(''confirmed'' \<mapsto> VBool True)\<rparr>)
      else (Inr [''confirmed'' \<mapsto> VBool False, ''user_feedback'' \<mapsto> VStr f],
            w\<lparr>memory := (memory w)(''confirmed'' \<mapsto> VBool False,
                                    ''user_feedback'' \<mapsto> VStr f)\<rparr>))"
  by (simp add: confirm_node_def val_lower_def remember_def Let_def)

lemma yes_please: "startswith (lower ''Yes please'') ''yes''"
  by (simp add: startswith_def lower_def lower_char_def)

lemma change_tools: "\<not> startswith (lower ''change the tool list'') ''yes''"
  by (simp add: startswith_def lower_def lower_char_def)

text \<open>
  Claim C1. On a state whose \<open>user_feedback\<close> is a string, the confirm step returns
  \<open>confirmed = True\<close> and stores it in memory exactly when the lowercased string starts
  with \<open>yes\<close>; otherwise it returns \<open>confirmed = False\<close> together with the feedback and
  stores both in memory. \<open>Yes please\<close> confirms; \<open>change the tool list\<close> does not, and
  is stored as it is.
\<close>

theorem confirm_node_feedback:
  assumes "st ''user_feedback'' = Some (VStr f)"
  shows "confirm_node st w =
           (if startswith (lower f) ''yes''
            then (Inr [''confirmed'' \<mapsto> VBool True],
                  w\<lparr>memory := (memory w)(''confirmed'' \<mapsto> VBool True)\<rparr>)
            else (Inr [''confirmed'' \<mapsto> VBool False, ''user_feedback'' \<mapsto> VStr f],
                  w\<lparr>memory := (memory w)(''confirmed'' \<mapsto> VBool False,
                                          ''user_feedback'' \<mapsto> VStr f)\<rparr>))
         \<and> (f = ''Yes please'' \<longrightarrow>
              confirm_node st w =
                (Inr [''confirmed'' \<mapsto> VBool True],
                 w\<lparr>memory := (memory w)(''confirmed'' \<mapsto> VBool True)\<rparr>))
         \<and> (f = ''change the tool list'' \<longrightarrow>
              confirm_node st w =
                (Inr [''confirmed'' \<mapsto> VBool False,
                      ''user_feedback'' \<mapsto> VStr ''change the tool list''],
                 w\<lparr>memory := (memory w)(''confirmed'' \<mapsto> VBool False,
                      ''user_feedback'' \<mapsto> VStr ''change the tool list'')\<rparr>))"
  using assms confirm_node_str [of st f w] yes_please change_tools by auto

theorem confirm_node_feedback_witness:
  "fst (confirm_node [''user_feedback'' \<mapsto> VStr ''Yes please''] (init_world [])) =
     Inr [''confirmed'' \<mapsto> VBool True]
   \<and> memory (snd (confirm_node [''user_feedback'' \<mapsto> VStr ''Yes please''] (init_world [])))
       ''confirmed'' = Some (VBool True)
   \<and> fst (confirm_node [''user_feedback'' \<mapsto> VStr ''change the tool list''] (init_world [])) =
     Inr [''confirmed'' \<mapsto> VBool False, ''user_feedback'' \<mapsto> VStr ''change the tool list'']
   \<and> memory (snd (confirm_node [''user_feedback'' \<mapsto> VStr ''change the tool list'']
         (init_world []))) ''user_feedback'' = Some (VStr ''change the tool list'')
   \<and> memory (snd (confirm_node [''user_feedback'' \<mapsto> VStr ''change the tool list'']
         (init_world []))) ''confirmed'' = Some (VBool False)"
  using confirm_node_feedback
      [of "[''user_feedback'' \<mapsto> VStr ''Yes please'']" "''Yes please''" "init_world []"]
    confirm_node_feedback
      [of "[''user_feedback'' \<mapsto> VStr ''change the tool list'']" "''change the tool list''"
          "init_world []"]
  by (simp add: startswith_def lower_def lower_char_def)

text \<open>
  Claim C9. On a state with no \<open>user_feedback\<close> key the confirm step does not fail: it
  reads the empty string, returns and stores \<open>confirmed = False\<close> and the empty feedback,
  and the router then sends the run to the update step, however the library folds the
  update into the state.
\<close>

theorem confirm_node_missing_feedback:
  assumes "st ''user_feedback'' = None"
  shows "confirm_node st w =
           (Inr [''confirmed'' \<mapsto> VBool False, ''user_feedback'' \<mapsto> VStr ''''],
            w\<lparr>memory := (memory w)(''confirmed'' \<mapsto> VBool False,
                                    ''user_feedback'' \<mapsto> VStr '''')\<rparr>)
         \<and> next_node Confirm
              (apply_update pol st
                 [''confirmed'' \<mapsto> VBool False, ''user_feedback'' \<mapsto> VStr '''']) = Node Update"
  using assms
  by (cases pol)
     (simp_all add: confirm_node_def val_lower_def remember_def startswith_def lower_def
        confirm_router_def apply_update_def Let_def)

theorem confirm_node_missing_feedback_witness:
  "confirm_node [''draft'' \<mapsto> VStr ''d''] (init_world []) =
     (Inr [''confirmed'' \<mapsto> VBool False, ''user_feedback'' \<mapsto> VStr ''''],
      (init_world [])\<lparr>memory := [''confirmed'' \<mapsto> VBool False, ''user_feedback'' \<mapsto> VStr '''']\<rparr>)
   \<and> next_node Confirm
        (apply_update Merge [''draft'' \<mapsto> VStr ''d'']
           [''confirmed'' \<mapsto> VBool False, ''user_feedback'' \<mapsto> VStr '''']) = Node Update"
  using confirm_node_missing_feedback [of "[''draft'' \<mapsto> VStr ''d'']" "init_world []" Merge]
  by (simp add: init_world_def)

text \<open>
  Claim C10. On a confirming feedback the confirm step changes the world only by
  binding \<open>confirmed\<close> in memory: every other memory key, \<open>user_feedback\<close> included,
  keeps its value. On a non-confirming feedback memory's \<open>user_feedback\<close> becomes that
  feedback.
\<close>

theorem confirm_node_frame:
  assumes "st ''user_feedback'' = Some (VStr f)"
  shows "(startswith (lower f) ''yes'' \<longrightarrow>
            snd (confirm_node st w) = w\<lparr>memory := (memory w)(''confirmed'' \<mapsto> VBool True)\<rparr>
            \<and> (\<forall>k. k \<noteq> ''confirmed'' \<longrightarrow>
                  memory (snd (confirm_node st w)) k = memory w k))
         \<and> (\<not> startswith (lower f) ''yes'' \<longrightarrow>
              memory (snd (confirm_node st w)) ''user_feedback'' = Some (VStr f))"
  using assms confirm_node_str [of st f w] by simp

theorem confirm_node_frame_witness:
  "memory (snd (confirm_node [''user_feedback'' \<mapsto> VStr ''yes'']
      ((init_world [])\<lparr>memory := [''draft'' \<mapsto> VStr ''d'', ''user_feedback'' \<mapsto> VStr ''old'']\<rparr>)))
     ''user_feedback'' = Some (VStr ''old'')
   \<and> memory (snd (confirm_node [''user_feedback'' \<mapsto> VStr ''yes'']
      ((init_world [])\<lparr>memory := [''draft'' \<mapsto> VStr ''d'', ''user_feedback'' \<mapsto> VStr ''old'']\<rparr>)))
     ''draft'' = Some (VStr ''d'')
   \<and> memory (snd (confirm_node [''user_feedback'' \<mapsto> VStr ''no'']
      ((init_world [])\<lparr>memory := [''draft'' \<mapsto> VStr ''d'', ''user_feedback'' \<mapsto> VStr ''old'']\<rparr>)))
     ''user_feedback'' = Some (VStr ''no'')"
  using confirm_node_frame [of "[''user_feedback'' \<mapsto> VStr ''yes'']" "''yes''"
      "(init_world [])\<lparr>memory := [''draft'' \<mapsto> VStr ''d'', ''user_feedback'' \<mapsto> VStr ''old'']\<rparr>"]
    confirm_node_frame [of "[''user_feedback'' \<mapsto> VStr ''no'']" "''no''"
      "(init_world [])\<lparr>memory := [''draft'' \<mapsto> VStr ''d'', ''user_feedback'' \<mapsto> VStr ''old'']\<rparr>"]
  by (simp add: startswith_def lower_def lower_char_def)

section \<open>Runs of the driver\<close>

text \<open>
  Claim C7. When the first line typed at the requirements prompt is \<open>exit\<close> (in any
  letter case), the driver returns at once: it has printed the welcome line and the
  prompt and read that one line, and nothing else has changed, so the graph was not
  invoked, the generator was not called and memory holds no final artifact that it did
  not hold before.
\<close>

theorem exit_at_requirements_prompt:
  assumes "stdin w = l # ls" and "lower l = ''exit''"
  shows "run_chat_agent env w =
           (Inr (), w\<lparr>stdout := stdout w @ [welcome_msg @ nl, requirements_prompt],
                      stdin := ls\<rparr>)
         \<and> calls (snd (run_chat_agent env w)) = calls w
         \<and> helpers (snd (run_chat_agent env w)) = helpers w
         \<and> visited (snd (run_chat_agent env w)) = visited w
         \<and> memory (snd (run_chat_agent env w)) = memory w"
  using assms by (simp add: run_chat_agent_def input_def print_def Let_def nl_def)

theorem exit_at_requirements_prompt_witness:
  "lower ''exit'' = ''exit''
   \<and> fst (run_chat_agent (canned_env Replace ''{}'') (init_world [''exit''])) = Inr ()
   \<and> calls (snd (run_chat_agent (canned_env Replace ''{}'') (init_world [''exit'']))) = []
   \<and> visited (snd (run_chat_agent (canned_env Replace ''{}'') (init_world [''exit'']))) = []
   \<and> memory (snd (run_chat_agent (canned_env Replace ''{}'') (init_world [''exit''])))
        ''final_json'' = None"
  using exit_at_requirements_prompt
    [of "init_world [''exit'']" "''exit''" "[]" "canned_env Replace ''{}''"]
  by (simp add: init_world_def lower_def lower_char_def)

lemma not_exit: "lower ''build a web scraper'' \<noteq> ''exit''"
  by (simp add: lower_def lower_char_def)

lemma yes_confirms: "startswith (lower ''yes'') ''yes''"
  by (simp add: startswith_def lower_def lower_char_def)

lemma scenario_graph:
  assumes "completion_of (generate_content env (length (calls w)) (draft_prompt env (VDict [(''goal'', v)]))) = Inr d"
    and "completion_of (generate_content env (Suc (length (calls w))) (finalize_prompt env d)) = Inr j"
    and "st ''requirements'' = Some v"
    and "stdin w = f # rest"
    and "startswith (lower f) ''yes''"
    and "run_graph env (Suc (Suc (Suc (Suc (Suc (Suc k)))))) Parse st w = (r, w')"
  shows "(\<exists>st'. r = Inr st') \<and> helpers w' = helpers w @ [GenerateDraft, FinalizeJson]
      \<and> calls w' = calls w @ [(draft_prompt env (VDict [(''goal'', v)]), Inr d), (finalize_prompt env d, Inr j)]
      \<and> visited w' = visited w @ [Parse, Draft, Present, Confirm, Finalize]
      \<and> memory w' ''final_json'' = Some j
      \<and> stdin w' = rest
      \<and> stdout w' = stdout w @ [proposed_header @ nl, py_str (repr_str env) d @ nl, confirm_prompt]"
  using assms
  by (auto simp add: parse_requirements_def draft_workflow_def generate_draft_with_gemini_def gemini_call_def
     Let_def remember_def recall_def present_workflow_def input_def print_def apply_update_def
     confirm_node_def val_lower_def confirm_router_def finalize_json_def finalize_json_with_gemini_def nl_def
     split: merge_policy.splits)

text \<open>
  Claim C4, as amended. Requirements \<open>build a web scraper\<close>, then \<open>yes\<close> at the first
  presentation. Provided the draft call and the finalize call of the generator return,
  the second with a non-empty text, and the graph library allows more than the five
  steps of the path, the run makes exactly these two generator calls (one draft, no
  update, one finalize), visits parse, draft, present, confirm, finalize, stores the
  non-empty text as \<open>final_json\<close>, prints it and returns.
\<close>

theorem scenario_confirm_at_first_presentation:
  assumes limit: "5 < recursion_limit env"
    and draft: "completion_of (generate_content env 0
                  (draft_prompt env (VDict [(''goal'', VStr ''build a web scraper'')]))) = Inr d"
    and final: "completion_of (generate_content env 1 (finalize_prompt env d)) = Inr (VStr j)"
    and nonempty: "j \<noteq> []"
    and run: "run_chat_agent env (init_world (''build a web scraper'' # ''yes'' # rest)) = (r, w')"
  shows "r = Inr ()
     \<and> helpers w' = [GenerateDraft, FinalizeJson]
     \<and> calls w' = [(draft_prompt env (VDict [(''goal'', VStr ''build a web scraper'')]), Inr d),
                    (finalize_prompt env d, Inr (VStr j))]
     \<and> visited w' = [Parse, Draft, Present, Confirm, Finalize]
     \<and> memory w' ''final_json'' = Some (VStr j)
     \<and> stdin w' = rest
     \<and> stdout w' = [welcome_msg @ nl, requirements_prompt, proposed_header @ nl,
                     py_str (repr_str env) d @ nl, confirm_prompt, final_header @ nl, j @ nl]"
proof -
  from limit obtain k where "recursion_limit env = 6 + k"
    using le_Suc_ex [of 6 "recursion_limit env"] by auto
  then have k: "recursion_limit env = Suc (Suc (Suc (Suc (Suc (Suc k)))))"
    by (simp add: eval_nat_numeral)
  let ?w0 = "init_world (''build a web scraper'' # ''yes'' # rest)"
  let ?w1 = "?w0\<lparr>stdout := [welcome_msg @ nl, requirements_prompt], stdin := ''yes'' # rest\<rparr>"
  let ?st = "[''requirements'' \<mapsto> VStr ''build a web scraper'']"
  have start: "run_chat_agent env ?w0 = run_loop env ?st ?w1"
    by (simp add: run_chat_agent_def input_def print_def Let_def nl_def init_world_def not_exit)
  obtain gr gw where g: "run_graph env (Suc (Suc (Suc (Suc (Suc (Suc k)))))) Parse ?st ?w1 = (gr, gw)"
    by (cases "run_graph env (Suc (Suc (Suc (Suc (Suc (Suc k)))))) Parse ?st ?w1")
  have facts: "(\<exists>st'. gr = Inr st') \<and> helpers gw = helpers ?w1 @ [GenerateDraft, FinalizeJson]
      \<and> calls gw = calls ?w1 @ [(draft_prompt env (VDict [(''goal'', VStr ''build a web scraper'')]), Inr d),
            (finalize_prompt env d, Inr (VStr j))]
      \<and> visited gw = visited ?w1 @ [Parse, Draft, Present, Confirm, Finalize]
      \<and> memory gw ''final_json'' = Some (VStr j)
      \<and> stdin gw = rest
      \<and> stdout gw = stdout ?w1 @ [proposed_header @ nl, py_str (repr_str env) d @ nl, confirm_prompt]"
    apply (rule scenario_graph [where f = "''yes''" and st = ?st, OF _ _ _ _ yes_confirms g])
    using draft final by (simp_all add: init_world_def)
  then obtain st' where gr: "gr = Inr st'" by blast
  have "run_loop env ?st ?w1 =
          (Inr (), print (py_str (repr_str env) (VStr j)) (print final_header gw))"
    using facts nonempty g gr
    by (subst run_loop.simps) (simp add: invoke_def k recall_def)
  with start run have "r = Inr ()" and "w' = print (py_str (repr_str env) (VStr j)) (print final_header gw)"
    by simp_all
  with facts show ?thesis
    by (simp add: print_def py_str_def init_world_def nl_def)
qed

theorem scenario_confirm_at_first_presentation_witness:
  "5 < recursion_limit (canned_env Replace ''{}'')
   \<and> fst (run_chat_agent (canned_env Replace ''{}'')
          (init_world [''build a web scraper'', ''yes''])) = Inr ()
   \<and> helpers (snd (run_chat_agent (canned_env Replace ''{}'')
          (init_world [''build a web scraper'', ''yes'']))) = [GenerateDraft, FinalizeJson]
   \<and> memory (snd (run_chat_agent (canned_env Replace ''{}'')
          (init_world [''build a web scraper'', ''yes'']))) ''final_json'' = Some (VStr ''{}'')"
  using scenario_confirm_at_first_presentation
    [of "canned_env Replace ''{}''" "VStr ''{}''" "''{}''" "[]"
        "fst (run_chat_agent (canned_env Replace ''{}'')
          (init_world [''build a web scraper'', ''yes'']))"
        "snd (run_chat_agent (canned_env Replace ''{}'')
          (init_world [''build a web scraper'', ''yes'']))"]
  by (simp add: canned_env_def constant_env_def canned_response_def completion_of_def first_text_def)

text \<open>Unfolding the steps on concrete input.\<close>

lemmas node_defs = parse_requirements_def draft_workflow_def generate_draft_with_gemini_def
  gemini_call_def Let_def remember_def recall_def present_workflow_def input_def print_def
  apply_update_def confirm_node_def val_lower_def confirm_router_def finalize_json_def
  finalize_json_with_gemini_def update_workflow_def update_workflow_with_gemini_def

lemma exit_lower: "lower ''exit'' = ''exit''" "\<not> startswith ''exit'' ''yes''"
  by (simp_all add: lower_def lower_char_def startswith_def)

lemma lower_empty: "lower [] = []"
  by (simp add: lower_def)

lemma yes_lower: "lower ''yes'' = ''yes''" "startswith ''yes'' ''yes''"
  by (simp_all add: lower_def lower_char_def startswith_def)

text \<open>
  Claim C4 as stated fails, since the outcome depends on what the generator returns.
  When the finalize call returns the empty text, \<open>final_json\<close> is stored empty, the
  driver's test \<open>if final_json\<close> fails and the loop invokes the graph again: with a
  state that the finalize step has replaced, the parse step raises a key error; with a
  merged state a second draft call is made and the console runs out. When the generator
  fails, the run aborts at the draft call and the finalize step is never reached.
\<close>

theorem scenario_without_artifact:
  "fst (scenario_run (canned_env Replace [])) = Inl (KeyError ''requirements'')
   \<and> helpers (snd (scenario_run (canned_env Replace []))) = [GenerateDraft, FinalizeJson]
   \<and> visited (snd (scenario_run (canned_env Replace [])))
       = [Parse, Draft, Present, Confirm, Finalize, Parse]
   \<and> memory (snd (scenario_run (canned_env Replace []))) ''final_json'' = Some (VStr [])
   \<and> fst (scenario_run (canned_env Merge [])) = Inl EOFError
   \<and> helpers (snd (scenario_run (canned_env Merge [])))
       = [GenerateDraft, FinalizeJson, GenerateDraft]
   \<and> memory (snd (scenario_run (canned_env Merge []))) ''final_json'' = Some (VStr [])
   \<and> fst (scenario_run (constant_env Replace (Inl (ApiError ''quota''))))
       = Inl (ApiError ''quota'')
   \<and> helpers (snd (scenario_run (constant_env Replace (Inl (ApiError ''quota'')))))
       = [GenerateDraft]
   \<and> memory (snd (scenario_run (constant_env Replace (Inl (ApiError ''quota'')))))
       ''final_json'' = None"
  unfolding scenario_run_def
  apply (simp add: run_chat_agent_def input_def print_def init_world_def not_exit)
  apply (simp add: run_loop.simps invoke_def canned_env_def constant_env_def canned_response_def
      completion_of_def first_text_def eval_nat_numeral node_defs yes_lower lower_empty)
  done

text \<open>
  The driver tests the feedback for \<open>exit\<close> only after an invocation of the graph has
  returned, and an invocation returns only through the finalize step, which is entered
  only on a confirming feedback. So the test never succeeds: whenever the driver
  returns normally after the requirements prompt, memory holds a final artifact.
\<close>

lemma yes_is_not_exit: "startswith s ''yes'' \<Longrightarrow> s \<noteq> ''exit''"
  by (auto simp: startswith_def)

lemma confirm_to_finalize:
  assumes "confirm_node st w = (Inr u, w')"
    and "confirm_router (apply_update pol st u) = Finalize"
  shows "not_exit_feedback (apply_update pol st u)"
  using assms
  by (cases pol)
     (auto simp: confirm_node_def Let_def confirm_router_def apply_update_def not_exit_feedback_def
        val_lower_def lower_def map_add_def
        dest: yes_is_not_exit split: sum.splits if_splits option.splits val.splits)

lemma finalize_keeps_feedback:
  assumes "finalize_json env st w = (Inr u, w')" and "not_exit_feedback st"
  shows "not_exit_feedback (apply_update pol st u)"
  using assms
  by (cases pol)
     (auto simp: finalize_json_def Let_def apply_update_def not_exit_feedback_def
        val_lower_def lower_def map_add_def split: sum.splits prod.splits)

lemma run_graph_feedback:
  "run_graph env k n st w = (Inr st', w') \<Longrightarrow> (n = Finalize \<longrightarrow> not_exit_feedback st) \<Longrightarrow>
   not_exit_feedback st'"
proof (induction k arbitrary: n st w)
  case 0
  then show ?case by simp
next
  case (Suc k)
  let ?w = "w\<lparr>visited := visited w @ [n]\<rparr>"
  obtain r1 w1 where rn: "run_node env n st ?w = (r1, w1)"
    by (cases "run_node env n st ?w")
  with Suc.prems(1) obtain u where u: "r1 = Inr u" by (cases r1) auto
  let ?st = "apply_update (policy env) st u"
  show ?case
  proof (cases "next_node n ?st")
    case END
    then have n: "n = Finalize" by (cases n) auto
    with Suc.prems(1) rn u END have "st' = ?st" by (simp add: Let_def split: if_splits)
    with n rn u Suc.prems(2) show ?thesis
      using finalize_keeps_feedback [of env st ?w u w1 "policy env"] by simp
  next
    case (Node m)
    with Suc.prems(1) rn u have rec: "run_graph env k m ?st w1 = (Inr st', w')"
      by (simp add: Let_def)
    have "m = Finalize \<longrightarrow> not_exit_feedback ?st"
    proof
      assume m: "m = Finalize"
      with Node have n: "n = Confirm" by (cases n) auto
      with Node m have "confirm_router ?st = Finalize" by simp
      with n rn u show "not_exit_feedback ?st"
        using confirm_to_finalize [of st ?w u w1 "policy env"] by simp
    qed
    from Suc.IH [OF rec this] show ?thesis .
  qed
qed

lemma run_loop_returns_with_artifact:
  "run_loop env st w = (Inr (), w') \<Longrightarrow> truthy (recall ''final_json'' VNone (memory w'))"
proof (induction env st w rule: run_loop.induct)
  case (1 env st w)
  obtain r1 w1 where inv: "invoke env st w = (r1, w1)"
    by (cases "invoke env st w")
  with "1.prems" obtain st1 where r1: "r1 = Inr st1"
    by (subst (asm) run_loop.simps) (cases r1; simp)
  have ne: "not_exit_feedback st1"
    using run_graph_feedback [of env "recursion_limit env" Parse st w st1 w1] inv r1
    by (simp add: invoke_def)
  show ?case
  proof (cases "truthy (recall ''final_json'' VNone (memory w1))")
    case True
    with "1.prems" inv r1 show ?thesis
      by (subst (asm) run_loop.simps) (auto simp: print_def Let_def)
  next
    case False
    obtain low where low: "val_lower (case st1 ''user_feedback'' of Some v \<Rightarrow> v | None \<Rightarrow> VStr '''') = Inr low"
      using "1.prems" inv r1 False
      by (subst (asm) run_loop.simps)
         (cases "val_lower (case st1 ''user_feedback'' of Some v \<Rightarrow> v | None \<Rightarrow> VStr '''')";
          simp add: Let_def)
    with ne have nex: "low \<noteq> ''exit''" by (simp add: not_exit_feedback_def)
    with "1.prems" inv r1 False low have "run_loop env st1 w1 = (Inr (), w')"
      by (subst (asm) run_loop.simps) (simp add: Let_def)
    from "1.IH" [OF inv [symmetric] r1 refl False low nex this] show ?thesis .
  qed
qed

lemma driver_returns_only_with_artifact:
  assumes "run_chat_agent env w = (Inr (), w')"
  shows "(\<exists>l ls. stdin w = l # ls \<and> lower l = ''exit'')
     \<or> truthy (recall ''final_json'' VNone (memory w'))"
proof (cases "stdin w")
  case Nil
  with assms show ?thesis
    by (simp add: run_chat_agent_def input_def print_def Let_def)
next
  case (Cons l ls)
  show ?thesis
  proof (cases "lower l = ''exit''")
    case True
    with Cons show ?thesis by simp
  next
    case False
    with assms Cons
    have "run_loop env [''requirements'' \<mapsto> VStr l]
            (w\<lparr>stdout := stdout w @ [welcome_msg @ [CHR 0x0A], requirements_prompt],
               stdin := ls\<rparr>) = (Inr (), w')"
      by (simp add: run_chat_agent_def input_def print_def Let_def)
    then show ?thesis using run_loop_returns_with_artifact by blast
  qed
qed

lemma exit_run_eval:
  "fst (exit_run pol) = Inr ()
   \<and> helpers (snd (exit_run pol)) = [GenerateDraft, UpdateWorkflow, FinalizeJson]
   \<and> visited (snd (exit_run pol))
       = [Parse, Draft, Present, Confirm, Update, Present, Confirm, Finalize]
   \<and> memory (snd (exit_run pol)) ''final_json'' = Some (VStr ''{}'')
   \<and> stdin (snd (exit_run pol)) = []
   \<and> stdout (snd (exit_run pol))
       = [welcome_msg @ nl, requirements_prompt,
          proposed_header @ nl, ''{}'' @ nl, confirm_prompt,
          proposed_header @ nl, ''{}'' @ nl, confirm_prompt,
          final_header @ nl, ''{}'' @ nl]"
  unfolding exit_run_def
  apply (simp add: run_chat_agent_def input_def print_def init_world_def not_exit)
  apply (cases pol)
  apply (simp_all add: run_loop.simps invoke_def canned_env_def constant_env_def canned_response_def completion_of_def first_text_def
      eval_nat_numeral node_defs exit_lower yes_lower py_str_def nl_def)
  done

lemma goodbye_not_printed: "goodbye @ nl \<notin> set (stdout (snd (exit_run pol)))"
  using exit_run_eval [of pol]
  by (simp add: goodbye_def nl_def welcome_msg_def requirements_prompt_def proposed_header_def confirm_prompt_def final_header_def)

text \<open>
  Claim C2, evaluated at requirements, \<open>exit\<close>, \<open>yes\<close>. The driver does not stop at
  \<open>exit\<close>: the confirm step takes it for a change request, the update step calls the
  generator with it, the draft is presented again, and the run ends by storing and
  printing a final artifact. The exit message is not printed. This is so however the
  library folds updates into the state.
\<close>

theorem exit_at_feedback_prompt_ignored:
  "fst (exit_run Replace) = Inr ()
   \<and> visited (snd (exit_run Replace))
       = [Parse, Draft, Present, Confirm, Update, Present, Confirm, Finalize]
   \<and> helpers (snd (exit_run Replace)) = [GenerateDraft, UpdateWorkflow, FinalizeJson]
   \<and> memory (snd (exit_run Replace)) ''final_json'' = Some (VStr ''{}'')
   \<and> goodbye @ nl \<notin> set (stdout (snd (exit_run Replace)))
   \<and> fst (exit_run Merge) = Inr ()
   \<and> visited (snd (exit_run Merge))
       = [Parse, Draft, Present, Confirm, Update, Present, Confirm, Finalize]
   \<and> helpers (snd (exit_run Merge)) = [GenerateDraft, UpdateWorkflow, FinalizeJson]
   \<and> memory (snd (exit_run Merge)) ''final_json'' = Some (VStr ''{}'')
   \<and> goodbye @ nl \<notin> set (stdout (snd (exit_run Merge)))"
  using exit_run_eval [of Replace] exit_run_eval [of Merge]
    goodbye_not_printed [of Replace] goodbye_not_printed [of Merge]
  by simp

section \<open>The confirmation cycle\<close>

lemma gemini_call_frame:
  "gemini_call env p w = (r, w') \<Longrightarrow>
   memory w' = memory w \<and> stdin w' = stdin w \<and> visited w' = visited w \<and> helpers w' = helpers w"
  by (auto simp: gemini_call_def Let_def)

lemma run_node_no_finalize:
  assumes "run_node env n st w = (r, w')" and "n \<noteq> Finalize"
  shows "memory w' ''final_json'' = memory w ''final_json''
     \<and> visited w' = visited w
     \<and> set (stdin w') \<subseteq> set (stdin w)
     \<and> (\<exists>hs. helpers w' = helpers w @ hs \<and> FinalizeJson \<notin> set hs)"
  using assms
  by (cases n)
     (auto simp: parse_requirements_def draft_workflow_def present_workflow_def confirm_node_def
        update_workflow_def generate_draft_with_gemini_def remember_def
        update_workflow_with_gemini_def input_def print_def Let_def
        dest!: gemini_call_frame split: option.splits sum.splits prod.splits list.splits if_splits)

lemma present_feedback:
  assumes "present_workflow env st w = (Inr u, w')"
  shows "\<exists>f\<in>set (stdin w). u = [''user_feedback'' \<mapsto> VStr f]"
  using assms
  by (auto simp: present_workflow_def input_def print_def Let_def split: list.splits)

lemma confirm_rejects:
  assumes "confirm_node st w = (Inr u, w')"
    and "\<forall>f. st ''user_feedback'' = Some (VStr f) \<longrightarrow> \<not> confirming f"
  shows "confirm_router (apply_update pol st u) = Update"
proof -
  have empty: "\<not> startswith (lower '''') ''yes''"
    by (simp add: startswith_def lower_def)
  show ?thesis
    using assms empty
    by (cases pol)
       (auto simp: confirm_node_def val_lower_def Let_def confirming_def confirm_router_def
          apply_update_def split: option.splits val.splits if_splits)
qed

lemma run_graph_never_finalizes:
  assumes "\<forall>f\<in>set (stdin w). \<not> confirming f"
    and "n \<noteq> Finalize"
    and "n = Confirm \<longrightarrow> (\<forall>f. st ''user_feedback'' = Some (VStr f) \<longrightarrow> \<not> confirming f)"
    and "run_graph env k n st w = (r, w')"
  shows "(\<exists>e. r = Inl e)
     \<and> (\<exists>tr. visited w' = visited w @ tr \<and> Finalize \<notin> set tr
           \<and> confirm_routes_to_update tr \<and> (tr = [] \<or> hd tr = n))
     \<and> (\<exists>hs. helpers w' = helpers w @ hs \<and> FinalizeJson \<notin> set hs)
     \<and> memory w' ''final_json'' = memory w ''final_json''"
  using assms
proof (induction k arbitrary: n st w)
  case 0
  then show ?case by auto
next
  case (Suc k)
  let ?w = "w\<lparr>visited := visited w @ [n]\<rparr>"
  obtain r1 w1 where rn: "run_node env n st ?w = (r1, w1)"
    by (cases "run_node env n st ?w")
  from run_node_no_finalize [OF rn Suc.prems(2)]
  obtain hs1 where fr: "memory w1 ''final_json'' = memory w ''final_json''"
      "visited w1 = visited w @ [n]" "set (stdin w1) \<subseteq> set (stdin w)"
      "helpers w1 = helpers w @ hs1" "FinalizeJson \<notin> set hs1"
    by auto
  show ?case
  proof (cases r1)
    case (Inl e)
    with Suc.prems(4) rn have "r = Inl e" "w' = w1" by simp_all
    with fr Suc.prems(2) show ?thesis by simp
  next
    case (Inr u)
    let ?st = "apply_update (policy env) st u"
    have "\<exists>m. next_node n ?st = Node m \<and> m \<noteq> Finalize
            \<and> (n = Confirm \<longrightarrow> m = Update)
            \<and> (m = Confirm \<longrightarrow> (\<forall>f. ?st ''user_feedback'' = Some (VStr f) \<longrightarrow> \<not> confirming f))"
    proof (cases n)
      case Confirm
      with rn Inr Suc.prems(3) have "confirm_router ?st = Update"
        using confirm_rejects [of st ?w u w1 "policy env"] by simp
      with Confirm show ?thesis by simp
    next
      case Present
      with rn Inr obtain f where "f \<in> set (stdin w)" "u = [''user_feedback'' \<mapsto> VStr f]"
        using present_feedback [of env st ?w u w1] by auto
      with Suc.prems(1) Present show ?thesis
        by (cases "policy env") (auto simp: apply_update_def)
    qed (use Suc.prems(2) in auto)
    then obtain m where m: "next_node n ?st = Node m" "m \<noteq> Finalize" "n = Confirm \<longrightarrow> m = Update"
        "m = Confirm \<longrightarrow> (\<forall>f. ?st ''user_feedback'' = Some (VStr f) \<longrightarrow> \<not> confirming f)"
      by blast
    from Suc.prems(4) rn Inr m(1) have rec: "run_graph env k m ?st w1 = (r, w')"
      by (simp add: Let_def)
    from Suc.prems(1) fr(3) have nc: "\<forall>f\<in>set (stdin w1). \<not> confirming f" by blast
    from Suc.IH [OF nc m(2) m(4) rec]
    obtain tr hs where ih: "\<exists>e. r = Inl e" "visited w' = visited w1 @ tr" "Finalize \<notin> set tr"
        "confirm_routes_to_update tr" "tr = [] \<or> hd tr = m"
        "helpers w' = helpers w1 @ hs" "FinalizeJson \<notin> set hs"
        "memory w' ''final_json'' = memory w1 ''final_json''"
      by auto
    have route: "confirm_routes_to_update (n # tr)"
      using ih(4,5) m(3) by (cases tr) auto
    have "visited w' = visited w @ (n # tr)" using ih(2) fr(2) by simp
    moreover have "Finalize \<notin> set (n # tr)" using ih(3) Suc.prems(2) by simp
    moreover have "helpers w' = helpers w @ (hs1 @ hs)" using ih(6) fr(4) by simp
    moreover have "FinalizeJson \<notin> set (hs1 @ hs)" using ih(7) fr(5) by simp
    ultimately show ?thesis
      using ih(1,8) fr(1) route by (metis list.sel(1))
  qed
qed

text \<open>
  Claim C3. When no line left on the console is a confirming reply, an invocation of the
  graph never completes and never enters the finalize step: among the steps it visits,
  every confirm is followed by update, the finalize helper is not called, and memory's
  \<open>final_json\<close> keeps the value it had. The invocation ends in an error: the console
  runs out, the library's step limit is reached, or a step fails.
\<close>

theorem non_confirming_never_finalizes:
  assumes "\<forall>f\<in>set (stdin w). \<not> startswith (lower f) ''yes''"
    and "invoke env st w = (r, w')"
  shows "(\<exists>e. r = Inl e)
     \<and> (\<exists>tr. visited w' = visited w @ tr \<and> Finalize \<notin> set tr \<and> confirm_routes_to_update tr)
     \<and> (\<exists>hs. helpers w' = helpers w @ hs \<and> FinalizeJson \<notin> set hs)
     \<and> memory w' ''final_json'' = memory w ''final_json''"
  using run_graph_never_finalizes [of w Parse st env "recursion_limit env" r w'] assms
  by (auto simp: invoke_def confirming_def)

theorem non_confirming_never_finalizes_witness:
  "\<not> startswith (lower ''add error handling'') ''yes''
   \<and> \<not> startswith (lower ''no'') ''yes''
   \<and> (\<exists>e. fst (invoke (canned_env Merge ''{}'')
               [''requirements'' \<mapsto> VStr ''build a web scraper'']
               (init_world [''add error handling'', ''no''])) = Inl e)
   \<and> memory (snd (invoke (canned_env Merge ''{}'')
               [''requirements'' \<mapsto> VStr ''build a web scraper'']
               (init_world [''add error handling'', ''no'']))) ''final_json'' = None"
  using non_confirming_never_finalizes
    [of "init_world [''add error handling'', ''no'']" "canned_env Merge ''{}''"
        "[''requirements'' \<mapsto> VStr ''build a web scraper'']"
        "fst (invoke (canned_env Merge ''{}'')
               [''requirements'' \<mapsto> VStr ''build a web scraper'']
               (init_world [''add error handling'', ''no'']))"
        "snd (invoke (canned_env Merge ''{}'')
               [''requirements'' \<mapsto> VStr ''build a web scraper'']
               (init_world [''add error handling'', ''no'']))"]
  by (simp add: init_world_def lower_def lower_char_def startswith_def)

section \<open>Failures of the generator\<close>

lemma failed_calls_append: "failed_calls (cs @ ds) = failed_calls cs @ failed_calls ds"
  by (induction cs rule: failed_calls.induct) simp_all

lemma gemini_call_aborts:
  assumes "failed_calls (calls w) = []" and "gemini_call env p w = (r, w')"
  shows "aborted_by r w'"
proof -
  from assms(2) have "calls w' = calls w @ [(p, r)]"
    by (auto simp: gemini_call_def Let_def)
  with assms(1) show ?thesis
    by (cases r) (simp_all add: aborted_by_def failed_calls_append)
qed

lemma aborted_by_Inr: "aborted_by (Inr x) w \<longleftrightarrow> failed_calls (calls w) = []"
  by (simp add: aborted_by_def)

lemma aborted_by_Inl_cong: "aborted_by (Inl e :: error + 'a) w \<Longrightarrow> calls w' = calls w \<Longrightarrow> aborted_by (Inl e :: error + 'b) w'"
  by (simp add: aborted_by_def)

lemma aborted_by_ok: "failed_calls (calls w) = [] \<Longrightarrow> aborted_by r w"
  by (cases r) (simp_all add: aborted_by_def)

lemma run_node_aborts:
  assumes "failed_calls (calls w) = []" and "run_node env n st w = (r, w')"
  shows "aborted_by r w'"
proof (cases n)
  case Parse
  with assms show ?thesis
    by (auto simp: parse_requirements_def Let_def aborted_by_def split: option.splits)
next
  case Draft
  obtain g wg where g: "gemini_call env (draft_prompt env (recall ''parsed'' VNone (memory w)))
      (w\<lparr>helpers := helpers w @ [GenerateDraft]\<rparr>) = (g, wg)"
    by (cases "gemini_call env (draft_prompt env (recall ''parsed'' VNone (memory w)))
      (w\<lparr>helpers := helpers w @ [GenerateDraft]\<rparr>)")
  from gemini_call_aborts [OF _ g] assms(1) have "aborted_by g wg" by simp
  with Draft assms(2) g show ?thesis
    by (cases g) (auto simp: draft_workflow_def generate_draft_with_gemini_def Let_def aborted_by_def)
next
  case Present
  with assms show ?thesis
    by (auto simp: present_workflow_def input_def print_def Let_def aborted_by_def
        split: list.splits)
next
  case Confirm
  with assms show ?thesis
    by (auto simp: confirm_node_def Let_def aborted_by_def split: sum.splits if_splits)
next
  case Update
  obtain g wg where g: "gemini_call env (update_prompt env (recall ''draft'' VNone (memory w))
        (recall ''user_feedback'' VNone (memory w)))
      (w\<lparr>helpers := helpers w @ [UpdateWorkflow]\<rparr>) = (g, wg)"
    by (cases "gemini_call env (update_prompt env (recall ''draft'' VNone (memory w))
        (recall ''user_feedback'' VNone (memory w)))
      (w\<lparr>helpers := helpers w @ [UpdateWorkflow]\<rparr>)")
  from gemini_call_aborts [OF _ g] assms(1) have "aborted_by g wg" by simp
  with Update assms(2) g show ?thesis
    by (cases g) (auto simp: update_workflow_def update_workflow_with_gemini_def Let_def aborted_by_def)
next
  case Finalize
  obtain g wg where g: "gemini_call env (finalize_prompt env (recall ''draft'' VNone (memory w)))
      (w\<lparr>helpers := helpers w @ [FinalizeJson]\<rparr>) = (g, wg)"
    by (cases "gemini_call env (finalize_prompt env (recall ''draft'' VNone (memory w)))
      (w\<lparr>helpers := helpers w @ [FinalizeJson]\<rparr>)")
  from gemini_call_aborts [OF _ g] assms(1) have "aborted_by g wg" by simp
  with Finalize assms(2) g show ?thesis
    by (cases g) (auto simp: finalize_json_def finalize_json_with_gemini_def Let_def aborted_by_def)
qed

lemma run_graph_aborts:
  "failed_calls (calls w) = [] \<Longrightarrow> run_graph env k n st w = (r, w') \<Longrightarrow> aborted_by r w'"
proof (induction k arbitrary: n st w)
  case 0
  then show ?case by (auto simp: aborted_by_def)
next
  case (Suc k)
  let ?w = "w\<lparr>visited := visited w @ [n]\<rparr>"
  obtain r1 w1 where rn: "run_node env n st ?w = (r1, w1)"
    by (cases "run_node env n st ?w")
  have ab: "aborted_by r1 w1"
    using run_node_aborts [OF _ rn] Suc.prems(1) by simp
  show ?case
  proof (cases r1)
    case (Inl e)
    with Suc.prems(2) rn ab show ?thesis by (auto simp: aborted_by_def)
  next
    case (Inr u)
    with ab have ok: "failed_calls (calls w1) = []" by (simp add: aborted_by_def)
    show ?thesis
    proof (cases "next_node n (apply_update (policy env) st u)")
      case END
      with Suc.prems(2) rn Inr ok show ?thesis
        by (auto simp: aborted_by_def Let_def split: if_splits)
    next
      case (Node m)
      with Suc.prems(2) rn Inr
      have "run_graph env k m (apply_update (policy env) st u) w1 = (r, w')"
        by (simp add: Let_def)
      from Suc.IH [OF ok this] show ?thesis .
    qed
  qed
qed

lemma run_loop_aborts:
  "failed_calls (calls w) = [] \<Longrightarrow> run_loop env st w = (r, w') \<Longrightarrow> aborted_by r w'"
proof (induction env st w rule: run_loop.induct)
  case (1 env st w)
  obtain r1 w1 where inv: "invoke env st w = (r1, w1)"
    by (cases "invoke env st w")
  have ab: "aborted_by r1 w1"
    using run_graph_aborts [of w env "recursion_limit env" Parse st r1 w1] inv "1.prems"(1)
    by (simp add: invoke_def)
  show ?case
  proof (cases r1)
    case (Inl e)
    with "1.prems"(2) inv ab show ?thesis
      by (subst (asm) run_loop.simps) (auto simp: aborted_by_def)
  next
    case (Inr st')
    with ab have ok: "failed_calls (calls w1) = []" by (simp add: aborted_by_def)
    let ?fj = "recall ''final_json'' VNone (memory w1)"
    let ?fb = "val_lower (case st' ''user_feedback'' of Some v \<Rightarrow> v | None \<Rightarrow> VStr '''')"
    show ?thesis
    proof (cases "truthy ?fj")
      case True
      with "1.prems"(2) inv Inr ok show ?thesis
        by (subst (asm) run_loop.simps) (auto simp: aborted_by_def print_def Let_def)
    next
      case False
      show ?thesis
      proof (cases ?fb)
        case (Inl e)
        with "1.prems"(2) inv Inr ok False show ?thesis
          by (subst (asm) run_loop.simps) (auto simp: aborted_by_def Let_def)
      next
        case low: (Inr low)
        show ?thesis
        proof (cases "low = ''exit''")
          case True
          with "1.prems"(2) inv Inr ok False low show ?thesis
            by (subst (asm) run_loop.simps) (auto simp: aborted_by_def print_def Let_def)
        next
          case ne: False
          with "1.prems"(2) inv Inr False low have "run_loop env st' w1 = (r, w')"
            by (subst (asm) run_loop.simps) (simp add: Let_def)
          from "1.IH" [OF inv [symmetric] Inr refl False low ne ok this] show ?thesis .
        qed
      qed
    qed
  qed
qed

lemma run_chat_agent_aborts:
  assumes "failed_calls (calls w) = []" and "run_chat_agent env w = (r, w')"
  shows "aborted_by r w'"
proof (cases "stdin w")
  case Nil
  with assms show ?thesis
    by (auto simp: run_chat_agent_def input_def print_def Let_def aborted_by_def)
next
  case (Cons l ls)
  show ?thesis
  proof (cases "lower l = ''exit''")
    case True
    with assms Cons show ?thesis
      by (auto simp: run_chat_agent_def input_def print_def Let_def aborted_by_def)
  next
    case False
    let ?w = "w\<lparr>stdout := stdout w @ [welcome_msg @ [CHR 0x0A], requirements_prompt], stdin := ls\<rparr>"
    from assms(2) Cons False have "run_loop env [''requirements'' \<mapsto> VStr l] ?w = (r, w')"
      by (simp add: run_chat_agent_def input_def print_def Let_def)
    from run_loop_aborts [OF _ this] assms(1) show ?thesis by simp
  qed
qed

text \<open>
  Claim C5, as amended. In a run of the driver that starts with no failed call in the
  log, a generator call that fails is the last call of the run and its error is the
  result of the run: no step catches it. The call helper fails with every exception of
  the client and with every error of reading the first candidate's text out of a
  response that has candidates. A response with no candidates is not a failure: the
  helper returns the response's string rendering as the completion.
\<close>

theorem generator_failure_aborts_run:
  assumes "failed_calls (calls w) = []" and "run_chat_agent env w = (r, w')"
  shows "(e \<in> set (failed_calls (calls w')) \<longrightarrow>
            r = Inl e \<and> failed_calls (calls w') = [e] \<and> snd (last (calls w')) = Inl e)
     \<and> (generate_content env (length (calls v)) p = Inl e \<longrightarrow>
            fst (gemini_call env p v) = Inl e)
     \<and> (generate_content env (length (calls v)) p = Inr (Response (Some (c # cs)) s)
          \<and> first_text c = Inl e \<longrightarrow> fst (gemini_call env p v) = Inl e)
     \<and> (generate_content env (length (calls v)) p = Inr (Response None s)
          \<or> generate_content env (length (calls v)) p = Inr (Response (Some []) s) \<longrightarrow>
            fst (gemini_call env p v) = Inr (VStr s))"
  using run_chat_agent_aborts [OF assms]
  by (cases r) (auto simp: aborted_by_def gemini_call_def completion_of_def Let_def)

lemma failing_run:
  "failed_calls (calls (snd (run_chat_agent (constant_env Replace (Inl (ApiError ''quota'')))
      (init_world [''build a web scraper'', ''yes''])))) = [ApiError ''quota'']"
  apply (simp add: run_chat_agent_def input_def print_def init_world_def not_exit)
  apply (simp add: run_loop.simps invoke_def constant_env_def completion_of_def eval_nat_numeral node_defs)
  done

theorem generator_failure_aborts_run_witness:
  "failed_calls (calls (init_world [''build a web scraper'', ''yes''])) = []
   \<and> fst (run_chat_agent (constant_env Replace (Inl (ApiError ''quota'')))
        (init_world [''build a web scraper'', ''yes''])) = Inl (ApiError ''quota'')
   \<and> fst (gemini_call (constant_env Replace (Inl (ApiError ''quota''))) ''p'' (init_world []))
        = Inl (ApiError ''quota'')
   \<and> fst (gemini_call (constant_env Replace (Inr (Response (Some [Candidate None]) ''r'')))
        ''p'' (init_world [])) = Inl AttributeError
   \<and> fst (gemini_call (constant_env Replace (Inr (Response None ''r''))) ''p'' (init_world []))
        = Inr (VStr ''r'')"
  using generator_failure_aborts_run
      [of "init_world [''build a web scraper'', ''yes'']"
          "constant_env Replace (Inl (ApiError ''quota''))"
          "fst (run_chat_agent (constant_env Replace (Inl (ApiError ''quota'')))
             (init_world [''build a web scraper'', ''yes'']))"
          "snd (run_chat_agent (constant_env Replace (Inl (ApiError ''quota'')))
             (init_world [''build a web scraper'', ''yes'']))"
          "ApiError ''quota''" "init_world []" "''p''" "Candidate None" "[]" "''r''"]
    generator_failure_aborts_run
      [of "init_world []" "constant_env Replace (Inr (Response (Some [Candidate None]) ''r''))"
          "fst (run_chat_agent (constant_env Replace (Inr (Response (Some [Candidate None]) ''r'')))
             (init_world []))"
          "snd (run_chat_agent (constant_env Replace (Inr (Response (Some [Candidate None]) ''r'')))
             (init_world []))"
          AttributeError "init_world []" "''p''" "Candidate None" "[]" "''r''"]
    generator_failure_aborts_run
      [of "init_world []" "constant_env Replace (Inr (Response None ''r''))"
          "fst (run_chat_agent (constant_env Replace (Inr (Response None ''r''))) (init_world []))"
          "snd (run_chat_agent (constant_env Replace (Inr (Response None ''r''))) (init_world []))"
          AttributeError "init_world []" "''p''" "Candidate None" "[]" "''r''"]
    failing_run
  by (simp add: init_world_def constant_env_def first_text_def)

text \<open>
  Claim C5 as stated fails: when the service answers with a response that has no
  candidates, the call helper does not fail but hands back the response's rendering,
  which the run then stores as the draft and, after \<open>yes\<close>, as the final artifact.
\<close>

theorem no_candidates_is_not_a_failure:
  "fst (gemini_call
          (constant_env Replace (Inr (Response None ''GenerateContentResponse(candidates=None)'')))
          ''prompt'' (init_world []))
     = Inr (VStr ''GenerateContentResponse(candidates=None)'')
   \<and> fst (run_chat_agent
          (constant_env Replace (Inr (Response None ''GenerateContentResponse(candidates=None)'')))
          (init_world [''build a web scraper'', ''yes''])) = Inr ()
   \<and> memory (snd (run_chat_agent
          (constant_env Replace (Inr (Response None ''GenerateContentResponse(candidates=None)'')))
          (init_world [''build a web scraper'', ''yes'']))) ''final_json''
     = Some (VStr ''GenerateContentResponse(candidates=None)'')"
  apply (simp add: run_chat_agent_def input_def print_def init_world_def not_exit)
  apply (simp add: run_loop.simps invoke_def constant_env_def completion_of_def eval_nat_numeral node_defs
      yes_lower)
  done

end
